theory Spec2Isabelle
  imports Main
begin

section \<open>Python values and strings\<close>

text \<open>
  The values that reach the enumeration helpers: \<open>None\<close>, an integer or a string.
  Truthiness is Python's: \<open>None\<close>, \<open>0\<close> and the empty string are falsy.
\<close>

datatype pyval = PNone | PInt int | PStr string

fun truthy :: "pyval \<Rightarrow> bool" where
  "truthy PNone = False"
| "truthy (PInt n) = (n \<noteq> 0)"
| "truthy (PStr s) = (s \<noteq> [])"

text \<open>
  \<open>val in [s.value for s in cls]\<close>: the member values are integers, and neither
  \<open>None\<close> nor a string compares equal to an integer.
\<close>

fun py_in :: "pyval \<Rightarrow> int list \<Rightarrow> bool" where
  "py_in (PInt n) vs = (n \<in> set vs)"
| "py_in PNone vs = False"
| "py_in (PStr s) vs = False"

text \<open>
  A string is the list of its code points; a \<open>char\<close> holds the code points below 256.
  \<open>str.lower\<close> moves A-Z and the upper-case letters of Latin-1 by 32, and
  \<open>str.strip\<close> removes, at both ends, the characters for which \<open>str.isspace\<close> holds.
\<close>

definition isspace :: "char \<Rightarrow> bool" where
  "isspace c = (let n = (of_char c :: nat)
                in (9 \<le> n \<and> n \<le> 13) \<or> (28 \<le> n \<and> n \<le> 32) \<or> n = 133 \<or> n = 160)"

definition isupper :: "char \<Rightarrow> bool" where
  "isupper c = (let n = (of_char c :: nat)
                in (65 \<le> n \<and> n \<le> 90) \<or> (192 \<le> n \<and> n \<le> 222 \<and> n \<noteq> 215))"

definition lower_char :: "char \<Rightarrow> char" where
  "lower_char c = (if isupper c then char_of ((of_char c :: nat) + 32) else c)"

definition lower :: "string \<Rightarrow> string" where
  "lower s = map lower_char s"

definition strip :: "string \<Rightarrow> string" where
  "strip s = rev (dropWhile isspace (rev (dropWhile isspace s)))"


section \<open>concept_enumerators.py\<close>

text \<open>
  An enumeration class is given by its body: the names and values in the order of
  declaration. Python's \<open>enum.Enum\<close> makes a member of the first declaration of each
  value; a later declaration of the same value is an alias of that member. Iterating
  over the class yields the members only, and \<open>cls(val)\<close> is the member of that value
  (\<open>ValueError\<close> when there is none).
\<close>

type_synonym enum_class = "(string \<times> int) list"

definition add_member :: "(string \<times> int) list \<Rightarrow> string \<times> int \<Rightarrow> (string \<times> int) list" where
  "add_member ms d = (if snd d \<in> snd ` set ms then ms else ms @ [d])"

definition enum_members :: "enum_class \<Rightarrow> (string \<times> int) list" where
  "enum_members cls = foldl add_member [] cls"

definition by_value :: "enum_class \<Rightarrow> pyval \<Rightarrow> (string \<times> int) option" where
  "by_value cls val =
     (case val of PInt n \<Rightarrow> find (\<lambda>m. snd m = n) (enum_members cls) | _ \<Rightarrow> None)"

definition member_values :: "enum_class \<Rightarrow> int list" where
  "member_values cls = map snd (enum_members cls)"

definition is_member :: "enum_class \<Rightarrow> pyval \<Rightarrow> bool" where
  "is_member cls val = (\<not> truthy val \<or> py_in val (map snd (enum_members cls)))"

definition labels :: "enum_class \<Rightarrow> string list" where
  "labels cls = map fst (enum_members cls)"

definition get_name :: "enum_class \<Rightarrow> pyval \<Rightarrow> string" where
  "get_name cls val = (case by_value cls val of Some m \<Rightarrow> fst m | None \<Rightarrow> [])"

definition Unknown :: enum_class where
  "Unknown =
    [(''generic'', 4129922), (''gender'', 4214687), (''condition'', 44790729),
     (''cancer'', 36402660), (''grade'', 4264626), (''stage'', 36768646),
     (''stage_edition'', 1634449), (''drug_trial'', 4090378),
     (''therapeutic_regimen'', 4207655)]"

definition is_unknown :: "pyval \<Rightarrow> bool" where
  "is_unknown val = (\<not> truthy val \<or> py_in val (map snd (enum_members Unknown)))"

definition DiseaseEpisodeConcepts :: enum_class where
  "DiseaseEpisodeConcepts =
    [(''episode_of_care'', 32533), (''confined'', 32528), (''invasive'', 32677),
     (''metastatic'', 32944), (''stable_disease'', 32948),
     (''disease_progression'', 32949), (''partial_response'', 32947),
     (''complete_response'', 32947)]"

definition TStageConcepts :: enum_class where
  "TStageConcepts =
    [(''t0'', 1634213), (''t1'', 1635564), (''t2'', 1635562), (''t3'', 1634376),
     (''t4'', 1634654), (''ta'', 1635682), (''tx'', 1635682), (''tis'', 1635682)]"

definition GroupStageConcepts :: enum_class where
  "GroupStageConcepts =
    [(''stage0'', 1633754), (''stageI'', 1633306), (''stageII'', 1634209),
     (''stageIII'', 1633650), (''stageIV'', 1633650)]"


section \<open>vocab_lookups.py\<close>

datatype error = TypeError | AttributeError | ArgumentError

text \<open>
  The \<open>unknown\<close> argument of the constructor: the default is the plain integer \<open>0\<close>;
  the enumeration catalog supplies members of \<open>Unknown\<close>, each with a name and a value.
  An integer has no attribute \<open>value\<close>; a member of a \<open>ConceptEnum\<close> (a plain
  \<open>enum.Enum\<close>) is not equal to any integer.
\<close>

datatype unknown_arg = PlainInt int | EnumMember string int

fun unknown_value :: "unknown_arg \<Rightarrow> int" where
  "unknown_value (PlainInt n) = n"
| "unknown_value (EnumMember nm v) = v"

text \<open>\<open>value != self._unknown\<close>, for an integer \<open>value\<close>.\<close>

fun py_ne :: "int \<Rightarrow> unknown_arg \<Rightarrow> bool" where
  "py_ne v (PlainInt n) = (v \<noteq> n)"
| "py_ne v (EnumMember nm n) = True"

record Concept =
  concept_id :: int
  concept_name :: string
  domain_id :: string

record Concept_Relationship =
  concept_id_1 :: int
  concept_id_2 :: int
  relationship_id :: string

text \<open>The session gives read access to the two tables.\<close>

record session =
  concept_table :: "Concept list"
  relationship_table :: "Concept_Relationship list"

text \<open>
  The fields of a \<open>VocabLookup\<close>; \<open>p_lookup\<close> is the \<open>defaultdict\<close> \<open>_lookup\<close>, whose
  default factory is \<open>return_unknown\<close>.
\<close>

record VocabLookup =
  p_unknown :: unknown_arg
  p_lookup :: "string \<rightharpoonup> int"
  p_domain :: "string option"
  p_parent :: "(string \<times> int) option"
  p_correction :: "(string \<Rightarrow> string) list option"

definition return_unknown :: "VocabLookup \<Rightarrow> error + int" where
  "return_unknown self =
     (case p_unknown self of PlainInt n \<Rightarrow> Inl AttributeError | EnumMember nm v \<Rightarrow> Inr v)"

text \<open>
  \<open>self._lookup[key]\<close>: a key that is present gives its value; a missing key calls the
  default factory and stores what it returns under the key; when the factory raises,
  nothing is stored. The result comes with the instance after the call.
\<close>

definition getitem :: "VocabLookup \<Rightarrow> string \<Rightarrow> (error + int) \<times> VocabLookup" where
  "getitem self key =
     (case p_lookup self key of
        Some v \<Rightarrow> (Inr v, self)
      | None \<Rightarrow>
          (case return_unknown self of
             Inl e \<Rightarrow> (Inl e, self)
           | Inr v \<Rightarrow> (Inr v, self\<lparr>p_lookup := (p_lookup self)(key \<mapsto> v)\<rparr>)))"

definition insert_domain_row :: "VocabLookup \<Rightarrow> Concept \<Rightarrow> VocabLookup" where
  "insert_domain_row self row =
     self\<lparr>p_lookup := (p_lookup self)(strip (lower (concept_name row)) \<mapsto> concept_id row)\<rparr>"

definition get_domain_lookup :: "VocabLookup \<Rightarrow> session \<Rightarrow> VocabLookup" where
  "get_domain_lookup self s =
     (let d = filter (\<lambda>c. Some (domain_id c) = p_domain self) (concept_table s)
      in foldl insert_domain_row self d)"

text \<open>
  \<open>get_children\<close> builds a query and returns it as it is: the statement has no
  \<open>.all()\<close>, so the caller gets the \<open>Query\<close> object, not a list of rows. The filter is
  built with \<open>Concept_Relationship.concept_id_1.in_(concept_id_tuple)\<close>, and \<open>in_\<close> takes
  a sequence of values: for an integer, a member of an enumeration or \<open>None\<close> it raises
  \<open>ArgumentError\<close> while the query is being built. \<open>pyobj\<close> are the objects that reach
  this parameter; a \<open>query\<close> is given by the rows that executing it would yield.
\<close>

datatype pyobj = IntObj int | MemberObj string int | NoneObj | TupleObj "int list"

datatype query = Query "(int \<times> int) list"

definition get_children :: "pyobj \<Rightarrow> session \<Rightarrow> error + query" where
  "get_children concept_id_tuple s =
     (case concept_id_tuple of
        TupleObj ids \<Rightarrow>
          Inr (Query (remdups (map (\<lambda>r. (concept_id_1 r, concept_id_2 r))
            (filter (\<lambda>r. concept_id_1 r \<in> set ids \<and> relationship_id r = ''Subsumes'')
               (relationship_table s)))))
      | IntObj n \<Rightarrow> Inl ArgumentError
      | MemberObj nm v \<Rightarrow> Inl ArgumentError
      | NoneObj \<Rightarrow> Inl ArgumentError)"

text \<open>
  The parameter \<open>children\<close> of \<open>get_all_concepts_in_hierarchy\<close>: a list of rows, or a
  \<open>Query\<close>, which is what \<open>get_children\<close> returns. \<open>len\<close> of a list is its length; a
  \<open>Query\<close> has no \<open>__len__\<close>, and \<open>len\<close> of it raises \<open>TypeError\<close>. Iterating over either
  yields the rows.
\<close>

datatype children = RowList "(int \<times> int) list" | QueryObj query

fun len :: "children \<Rightarrow> error + nat" where
  "len (RowList rows) = Inr (length rows)"
| "len (QueryObj q) = Inl TypeError"

fun iter :: "children \<Rightarrow> (int \<times> int) list" where
  "iter (RowList rows) = rows"
| "iter (QueryObj (Query rows)) = rows"

text \<open>
  \<open>get_all_concepts_in_hierarchy\<close> calls itself without a bound, so the model takes
  fuel: \<open>None\<close> is a call that has not come back within the fuel. A call that comes back
  has raised (\<open>Inl\<close>) or returned (\<open>Inr\<close>): \<open>concepts\<close> when \<open>children\<close> is empty, Python's
  \<open>None\<close> after the loop. No statement of the body changes the list \<open>concepts\<close> (the
  \<open>append\<close> is commented out), so it is passed on as it is. \<open>each_child\<close> is the \<open>for\<close>
  loop; it passes the integer \<open>child.concept_id_2\<close> to \<open>get_children\<close>.
\<close>

fun get_all_concepts_in_hierarchy ::
      "nat \<Rightarrow> children \<Rightarrow> Concept list \<Rightarrow> session \<Rightarrow> (error + Concept list option) option"
  and each_child ::
      "nat \<Rightarrow> (int \<times> int) list \<Rightarrow> Concept list \<Rightarrow> session \<Rightarrow> (error + unit) option"
where
  "get_all_concepts_in_hierarchy 0 children concepts s = None"
| "get_all_concepts_in_hierarchy (Suc n) children concepts s =
     (case len children of
        Inl e \<Rightarrow> Some (Inl e)
      | Inr k \<Rightarrow>
          (if k = 0 then Some (Inr (Some concepts))
           else (case each_child n (iter children) concepts s of
                   None \<Rightarrow> None
                 | Some (Inl e) \<Rightarrow> Some (Inl e)
                 | Some (Inr u) \<Rightarrow> Some (Inr None))))"
| "each_child n [] concepts s = Some (Inr ())"
| "each_child n (child # rest) concepts s =
     (case get_children (IntObj (snd child)) s of
        Inl e \<Rightarrow> Some (Inl e)
      | Inr next_level \<Rightarrow>
          (case get_all_concepts_in_hierarchy n (QueryObj next_level) concepts s of
             None \<Rightarrow> None
           | Some (Inl e) \<Rightarrow> Some (Inl e)
           | Some (Inr r) \<Rightarrow> each_child n rest concepts s))"

text \<open>The body of the loop of \<open>get_lookup\<close>: the key is \<open>c.concept_name.lower()\<close>.\<close>

definition insert_concept :: "VocabLookup \<Rightarrow> Concept \<Rightarrow> VocabLookup" where
  "insert_concept self c =
     self\<lparr>p_lookup := (p_lookup self)(lower (concept_name c) \<mapsto> concept_id c)\<rparr>"

text \<open>
  \<open>get_lookup(self, session)\<close>, as it is declared. It passes \<open>self._parent\<close>, the member
  given to the constructor (or \<open>None\<close>), to \<open>get_children\<close>; the parentheses around it
  make no tuple. \<open>Inl\<close> is the exception, \<open>Inr\<close> the instance after the call.
\<close>

definition parent_obj :: "(string \<times> int) option \<Rightarrow> pyobj" where
  "parent_obj parent = (case parent of None \<Rightarrow> NoneObj | Some (nm, v) \<Rightarrow> MemberObj nm v)"

definition get_lookup :: "nat \<Rightarrow> VocabLookup \<Rightarrow> session \<Rightarrow> (error + VocabLookup) option" where
  "get_lookup fuel self s =
     (case get_children (parent_obj (p_parent self)) s of
        Inl e \<Rightarrow> Some (Inl e)
      | Inr first_level \<Rightarrow>
          (let concepts = []
           in case get_all_concepts_in_hierarchy fuel (QueryObj first_level) concepts s of
                None \<Rightarrow> None
              | Some (Inl e) \<Rightarrow> Some (Inl e)
              | Some (Inr r) \<Rightarrow> Some (Inr (foldl insert_concept self concepts))))"

definition new_instance ::
    "unknown_arg \<Rightarrow> (string \<times> int) option \<Rightarrow> string option \<Rightarrow> VocabLookup" where
  "new_instance unknown parent domain =
     \<lparr>p_unknown = unknown, p_lookup = Map.empty, p_domain = domain, p_parent = parent,
      p_correction = None\<rparr>"

text \<open>
  \<open>__init__\<close>. With a parent it calls \<open>self.get_lookup(self._lookup, parent.value,
  session)\<close>, three arguments for the one parameter \<open>session\<close>: a \<open>TypeError\<close>.
\<close>

definition VocabLookup_init ::
    "unknown_arg \<Rightarrow> (string \<times> int) option \<Rightarrow> string option \<Rightarrow> session
       \<Rightarrow> error + VocabLookup" where
  "VocabLookup_init unknown parent domain s =
     (let self = new_instance unknown parent domain
      in case parent of
           Some p \<Rightarrow> Inl TypeError
         | None \<Rightarrow>
             (case domain of
                Some d \<Rightarrow> Inr (get_domain_lookup self s)
              | None \<Rightarrow> Inr self))"

definition term_or_empty :: "string option \<Rightarrow> string" where
  "term_or_empty t = (case t of None \<Rightarrow> [] | Some s \<Rightarrow> s)"

definition lookup_exact :: "VocabLookup \<Rightarrow> string option \<Rightarrow> (error + int) \<times> VocabLookup" where
  "lookup_exact self t =
     (let t = term_or_empty t in getitem self (strip (lower t)))"

text \<open>
  The loop of \<open>lookup\<close> over the corrections; the last component counts the correction
  functions that have been called.
\<close>

fun correction_loop ::
    "VocabLookup \<Rightarrow> string \<Rightarrow> (string \<Rightarrow> string) list \<Rightarrow> int \<Rightarrow> nat
       \<Rightarrow> (error + int) \<times> VocabLookup \<times> nat" where
  "correction_loop self t [] v k = (Inr v, self, k)"
| "correction_loop self t (c # cs) v k =
     (if py_ne v (p_unknown self) then (Inr v, self, k)
      else (case getitem self (strip (lower (c t))) of
              (Inl e, self') \<Rightarrow> (Inl e, self', Suc k)
            | (Inr v', self') \<Rightarrow> correction_loop self' t cs v' (Suc k)))"

definition lookup :: "VocabLookup \<Rightarrow> string option \<Rightarrow> (error + int) \<times> VocabLookup \<times> nat" where
  "lookup self t =
     (let t = term_or_empty t
      in case getitem self (strip (lower t)) of
           (Inl e, self') \<Rightarrow> (Inl e, self', 0)
         | (Inr v, self') \<Rightarrow>
             (case p_correction self' of
                None \<Rightarrow> (Inr v, self', 0)
              | Some cs \<Rightarrow> correction_loop self' t cs v 0))"

text \<open>The calls a client makes on an instance after construction, one after the other.\<close>

datatype call = CallLookupExact "string option" | CallLookup "string option"

fun run_calls :: "VocabLookup \<Rightarrow> call list \<Rightarrow> VocabLookup" where
  "run_calls self [] = self"
| "run_calls self (CallLookupExact t # cs) = run_calls (snd (lookup_exact self t)) cs"
| "run_calls self (CallLookup t # cs) = run_calls (fst (snd (lookup self t))) cs"

text \<open>A key is normalized: no upper-case letter, no whitespace at either end.\<close>

definition key_normalized :: "string \<Rightarrow> bool" where
  "key_normalized k =
     ((\<forall>c \<in> set k. \<not> isupper c) \<and> (k \<noteq> [] \<longrightarrow> \<not> isspace (hd k) \<and> \<not> isspace (last k)))"

text \<open>
  \<open>grows l l'\<close>: \<open>l'\<close> is \<open>l\<close> with a mapping that keeps every entry of \<open>l\<close> and has,
  besides, only normalized keys that map to what \<open>return_unknown\<close> returns.
\<close>

definition grows :: "VocabLookup \<Rightarrow> VocabLookup \<Rightarrow> bool" where
  "grows l l' =
     (l' = l\<lparr>p_lookup := p_lookup l'\<rparr>
      \<and> (\<forall>k v. p_lookup l k = Some v \<longrightarrow> p_lookup l' k = Some v)
      \<and> (\<forall>k v. p_lookup l k = None \<longrightarrow> p_lookup l' k = Some v \<longrightarrow>
             key_normalized k \<and> return_unknown l = Inr v))"

definition all_keys_normalized :: "VocabLookup \<Rightarrow> bool" where
  "all_keys_normalized l = (\<forall>k \<in> dom (p_lookup l). key_normalized k)"

text \<open>An example: the concepts of the domain \<open>Gender\<close>, and the lookup built from them.\<close>

definition gender_session :: session where
  "gender_session =
     \<lparr>concept_table =
        [\<lparr>concept_id = 1, concept_name = ''Male'', domain_id = ''Gender''\<rparr>,
         \<lparr>concept_id = 2, concept_name = ''Female'', domain_id = ''Gender''\<rparr>],
      relationship_table = []\<rparr>"

definition gender_lookup :: VocabLookup where
  "gender_lookup =
     get_domain_lookup (new_instance (EnumMember ''gender'' 4214687) None (Some ''Gender''))
       gender_session"

text \<open>The same lookup built with the default \<open>unknown=0\<close>.\<close>

definition default_gender_lookup :: VocabLookup where
  "default_gender_lookup =
     get_domain_lookup (new_instance (PlainInt 0) None (Some ''Gender'')) gender_session"

text \<open>An example: a parent concept with one child, which has one child of its own.\<close>

definition hier_session :: session where
  "hier_session =
     \<lparr>concept_table =
        [\<lparr>concept_id = 10, concept_name = ''Parent'', domain_id = ''Condition''\<rparr>,
         \<lparr>concept_id = 11, concept_name = ''Alpha'', domain_id = ''Condition''\<rparr>,
         \<lparr>concept_id = 12, concept_name = ''Beta'', domain_id = ''Condition''\<rparr>],
      relationship_table =
        [\<lparr>concept_id_1 = 10, concept_id_2 = 11, relationship_id = ''Subsumes''\<rparr>,
         \<lparr>concept_id_1 = 11, concept_id_2 = 12, relationship_id = ''Subsumes''\<rparr>]\<rparr>"




section \<open>The enumeration helpers\<close>

lemma members_GroupStage:
  "enum_members GroupStageConcepts =
     [(''stage0'', 1633754), (''stageI'', 1633306), (''stageII'', 1634209),
      (''stageIII'', 1633650)]"
  by (simp add: enum_members_def GroupStageConcepts_def add_member_def)

lemma members_DiseaseEpisode:
  "enum_members DiseaseEpisodeConcepts =
     [(''episode_of_care'', 32533), (''confined'', 32528), (''invasive'', 32677),
      (''metastatic'', 32944), (''stable_disease'', 32948),
      (''disease_progression'', 32949), (''partial_response'', 32947)]"
  by (simp add: enum_members_def DiseaseEpisodeConcepts_def add_member_def)

lemma members_TStage:
  "enum_members TStageConcepts =
     [(''t0'', 1634213), (''t1'', 1635564), (''t2'', 1635562), (''t3'', 1634376),
      (''t4'', 1634654), (''ta'', 1635682)]"
  by (simp add: enum_members_def TStageConcepts_def add_member_def)

lemma members_Unknown: "enum_members Unknown = Unknown"
  by (simp add: enum_members_def Unknown_def add_member_def)

text \<open>
  C9. For a falsy value (\<open>None\<close>, \<open>0\<close>, the empty string) \<open>is_member\<close> of any
  enumeration, and \<open>Unknown.is_unknown\<close>, return \<open>True\<close>, although none of the three
  is the value of a member of \<open>Unknown\<close>; for a truthy value both return whether the
  value is the value of a member.
\<close>

theorem is_member_falsy:
  "(\<not> truthy val \<longrightarrow> is_member cls val \<and> is_unknown val)
   \<and> (truthy val \<longrightarrow> is_member cls val = py_in val (member_values cls)
                    \<and> is_unknown val = py_in val (member_values Unknown))
   \<and> (\<forall>v \<in> {PNone, PInt 0, PStr []}.
         \<not> truthy v \<and> \<not> py_in v (member_values Unknown)
         \<and> is_member Unknown v \<and> is_unknown v)"
  by (simp add: is_member_def is_unknown_def member_values_def members_Unknown)
     (simp add: Unknown_def)

theorem is_member_falsy_witness:
  "\<not> truthy (PInt 0) \<and> is_member GroupStageConcepts (PInt 0) \<and> is_unknown (PInt 0)
   \<and> \<not> py_in (PInt 0) (member_values GroupStageConcepts)
   \<and> truthy (PInt 7) \<and> \<not> is_member GroupStageConcepts (PInt 7) \<and> \<not> is_unknown (PInt 7)
   \<and> truthy (PInt 4214687) \<and> is_unknown (PInt 4214687)"
  using is_member_falsy [of "PInt 0" GroupStageConcepts]
        is_member_falsy [of "PInt 7" GroupStageConcepts]
        is_member_falsy [of "PInt 4214687" GroupStageConcepts]
  by (simp add: member_values_def members_GroupStage members_Unknown)
     (simp add: Unknown_def)

text \<open>
  C10. Where two declarations of an enumeration share a value, the later one is an
  alias of the first: \<open>labels\<close> leaves the later names out, and \<open>get_name\<close> of the
  shared value is the name declared first. In general \<open>get_name\<close> of the value of any
  declaration is the name of the first declaration with that value.
\<close>

theorem alias_declarations:
  "labels GroupStageConcepts = [''stage0'', ''stageI'', ''stageII'', ''stageIII'']
   \<and> get_name GroupStageConcepts (PInt 1633650) = ''stageIII''
   \<and> ''complete_response'' \<notin> set (labels DiseaseEpisodeConcepts)
   \<and> ''partial_response'' \<in> set (labels DiseaseEpisodeConcepts)
   \<and> get_name DiseaseEpisodeConcepts (PInt 32947) = ''partial_response''
   \<and> labels TStageConcepts = [''t0'', ''t1'', ''t2'', ''t3'', ''t4'', ''ta'']
   \<and> get_name TStageConcepts (PInt 1635682) = ''ta''"
  by (simp add: labels_def get_name_def by_value_def members_GroupStage
        members_DiseaseEpisode members_TStage)


section \<open>Normalized keys\<close>

lemma of_char_lower_char:
  "(of_char (lower_char c) :: nat) = (if isupper c then of_char c + 32 else of_char c)"
  by (simp add: lower_char_def isupper_def Let_def)

lemma isupper_lower_char: "\<not> isupper (lower_char c)"
  by (auto simp add: isupper_def[of "lower_char c"] of_char_lower_char Let_def) (auto simp: isupper_def)

lemma isspace_lower_char: "isspace (lower_char c) = isspace c"
  by (auto simp add: isspace_def[of "lower_char c"] of_char_lower_char Let_def) (auto simp: isupper_def isspace_def Let_def)

lemma last_dropWhile: "dropWhile P xs \<noteq> [] \<Longrightarrow> last (dropWhile P xs) = last xs"
  by (induction xs) auto

lemma strip_ends:
  assumes "strip s \<noteq> []"
  shows "\<not> isspace (hd (strip s)) \<and> \<not> isspace (last (strip s))"
proof -
  let ?y = "dropWhile isspace s"
  let ?z = "dropWhile isspace (rev ?y)"
  from assms have z: "?z \<noteq> []" by (simp add: strip_def)
  then have y: "?y \<noteq> []" by (metis dropWhile.simps(1) rev.simps(1))
  have "last (strip s) = hd ?z" using z by (simp add: strip_def last_rev)
  moreover have "\<not> isspace (hd ?z)" using z hd_dropWhile by blast
  moreover have "hd (strip s) = last ?z" using z by (simp add: strip_def hd_rev)
  moreover have "last ?z = last (rev ?y)" using z by (rule last_dropWhile)
  moreover have "last (rev ?y) = hd ?y" using y by (simp add: last_rev)
  moreover have "\<not> isspace (hd ?y)" using y hd_dropWhile by blast
  ultimately show ?thesis by simp
qed

lemma set_strip: "set (strip s) \<subseteq> set s"
  by (auto simp: strip_def dest!: set_dropWhileD)

lemma key_normalized_strip_lower: "key_normalized (strip (lower s))"
proof -
  have "\<forall>c \<in> set (strip (lower s)). \<not> isupper c"
    using set_strip [of "lower s"] by (auto simp: lower_def isupper_lower_char)
  then show ?thesis
    using strip_ends [of "lower s"] by (simp add: key_normalized_def)
qed

section \<open>What a lookup does to the mapping\<close>

lemma grows_old: "grows l l' \<Longrightarrow> p_lookup l k = Some v \<Longrightarrow> p_lookup l' k = Some v"
  unfolding grows_def by (elim conjE) simp

lemma grows_added:
  assumes "grows l l'" and "p_lookup l k = None" and "p_lookup l' k = Some v"
  shows "key_normalized k \<and> return_unknown l = Inr v"
proof -
  have "\<forall>k v. p_lookup l k = None \<longrightarrow> p_lookup l' k = Some v \<longrightarrow>
             key_normalized k \<and> return_unknown l = Inr v"
    using assms(1) unfolding grows_def by (rule conjunct2 [OF conjunct2])
  then show ?thesis using assms(2,3) by blast
qed

lemma return_unknown_value: "return_unknown l = Inr v \<Longrightarrow> v = unknown_value (p_unknown l)"
  by (cases "p_unknown l") (simp_all add: return_unknown_def)

lemma grows_new:
  assumes "grows l l'" and "p_lookup l k = None" and "p_lookup l' k = Some v"
  shows "key_normalized k \<and> v = unknown_value (p_unknown l)"
  using grows_added [OF assms] return_unknown_value by blast

lemma grows_refl: "grows l l"
  by (simp add: grows_def)

lemma grows_frame: "grows l l' \<Longrightarrow> l' = l\<lparr>p_lookup := p_lookup l'\<rparr>"
  unfolding grows_def by (elim conjE)

lemma grows_unknown: "grows l l' \<Longrightarrow> p_unknown l' = p_unknown l"
  by (metis grows_frame VocabLookup.select_convs(1) VocabLookup.surjective
        VocabLookup.update_convs(2))

lemma grows_correction: "grows l l' \<Longrightarrow> p_correction l' = p_correction l"
  by (metis grows_frame VocabLookup.select_convs(5) VocabLookup.surjective
        VocabLookup.update_convs(2))

lemma grows_trans:
  assumes "grows a b" and "grows b c"
  shows "grows a c"
proof -
  have u: "return_unknown b = return_unknown a"
    using grows_unknown [OF assms(1)] by (simp add: return_unknown_def)
  have "c = b\<lparr>p_lookup := p_lookup c\<rparr>" using assms(2) by (rule grows_frame)
  moreover have "b = a\<lparr>p_lookup := p_lookup b\<rparr>" using assms(1) by (rule grows_frame)
  ultimately have f: "c = a\<lparr>p_lookup := p_lookup c\<rparr>"
    by (metis VocabLookup.update_convs(2) VocabLookup.surjective)
  have old: "\<forall>k v. p_lookup a k = Some v \<longrightarrow> p_lookup c k = Some v"
    using grows_old [OF assms(1)] grows_old [OF assms(2)] by blast
  have new: "\<forall>k v. p_lookup a k = None \<longrightarrow> p_lookup c k = Some v \<longrightarrow>
             key_normalized k \<and> return_unknown a = Inr v"
  proof (intro allI impI)
    fix k v assume n: "p_lookup a k = None" and s: "p_lookup c k = Some v"
    show "key_normalized k \<and> return_unknown a = Inr v"
    proof (cases "p_lookup b k")
      case None
      then show ?thesis using grows_added [OF assms(2) _ s] u by simp
    next
      case (Some w)
      then have "p_lookup c k = Some w" using grows_old [OF assms(2)] by blast
      then show ?thesis using grows_added [OF assms(1) n Some] s by simp
    qed
  qed
  show ?thesis unfolding grows_def using f old new by blast
qed

lemma getitem_grows: "key_normalized key \<Longrightarrow> grows l (snd (getitem l key))"
  by (cases "p_unknown l")
     (auto simp: getitem_def return_unknown_def grows_def split: option.splits)

lemma getitem_result:
  "fst (getitem l key) = Inr v \<Longrightarrow>
     p_lookup l key = Some v \<or> (p_lookup l key = None \<and> v = unknown_value (p_unknown l))"
  by (cases "p_unknown l")
     (auto simp: getitem_def return_unknown_def split: option.splits)

lemma getitem_hit: "p_lookup l key = Some v \<Longrightarrow> getitem l key = (Inr v, l)"
  by (simp add: getitem_def)

lemma getitem_total:
  "p_unknown l = EnumMember nm u \<Longrightarrow> \<exists>v. fst (getitem l key) = Inr v"
  by (auto simp: getitem_def return_unknown_def split: option.splits)

lemma correction_loop_grows: "grows l (fst (snd (correction_loop l t cs v k)))"
proof (induction cs arbitrary: l v k)
  case Nil
  show ?case by (simp add: grows_refl)
next
  case (Cons c cs)
  show ?case
  proof (cases "py_ne v (p_unknown l)")
    case True
    then show ?thesis by (simp add: grows_refl)
  next
    case False
    obtain r l' where g: "getitem l (strip (lower (c t))) = (r, l')"
      by (cases "getitem l (strip (lower (c t)))")
    have gl: "grows l l'"
      using getitem_grows [OF key_normalized_strip_lower, of l "c t"] g by simp
    show ?thesis
    proof (cases r)
      case (Inl e)
      then show ?thesis using False g gl by simp
    next
      case (Inr v')
      then show ?thesis
        using False g grows_trans [OF gl Cons.IH [of l' v' "Suc k"]] by simp
    qed
  qed
qed

lemma lookup_exact_grows: "grows l (snd (lookup_exact l t))"
  by (simp add: lookup_exact_def getitem_grows key_normalized_strip_lower)

lemma lookup_grows: "grows l (fst (snd (lookup l t)))"
proof -
  let ?key = "strip (lower (term_or_empty t))"
  obtain r l' where g: "getitem l ?key = (r, l')"
    by (cases "getitem l ?key")
  have gl: "grows l l'"
    using getitem_grows [OF key_normalized_strip_lower, of l "term_or_empty t"] g by simp
  show ?thesis
  proof (cases r)
    case (Inl e)
    then show ?thesis using g gl by (simp add: lookup_def)
  next
    case (Inr v)
    show ?thesis
    proof (cases "p_correction l'")
      case None
      then show ?thesis using Inr g gl by (simp add: lookup_def)
    next
      case (Some cs)
      then show ?thesis
        using Inr g grows_trans [OF gl correction_loop_grows [of l' "term_or_empty t" cs v 0]]
        by (simp add: lookup_def)
    qed
  qed
qed

lemma run_calls_grows: "grows l (run_calls l calls)"
proof (induction calls arbitrary: l)
  case Nil
  show ?case by (simp add: grows_refl)
next
  case (Cons c calls)
  show ?case
  proof (cases c)
    case (CallLookupExact t)
    then show ?thesis
      using grows_trans [OF lookup_exact_grows Cons.IH] by simp
  next
    case (CallLookup t)
    then show ?thesis
      using grows_trans [OF lookup_grows Cons.IH] by simp
  qed
qed

lemma grows_same_results:
  assumes "grows l l'"
  shows "fst (getitem l' k) = fst (getitem l k)"
proof (cases "p_lookup l k")
  case (Some v)
  then have "p_lookup l' k = Some v" using grows_old [OF assms] by blast
  then show ?thesis using Some by (simp add: getitem_def)
next
  case None
  have u: "return_unknown l' = return_unknown l"
    using grows_unknown [OF assms] by (simp add: return_unknown_def)
  show ?thesis
  proof (cases "p_lookup l' k")
    case (Some v)
    then have "return_unknown l = Inr v" using grows_added [OF assms None] by blast
    then show ?thesis using None Some by (simp add: getitem_def)
  next
    case n: None
    then show ?thesis using None u by (simp add: getitem_def split: sum.splits)
  qed
qed

section \<open>Construction\<close>

lemma insert_domain_rows_inv:
  "all_keys_normalized l \<Longrightarrow>
     all_keys_normalized (foldl insert_domain_row l rows)
     \<and> p_unknown (foldl insert_domain_row l rows) = p_unknown l
     \<and> p_correction (foldl insert_domain_row l rows) = p_correction l"
proof (induction rows arbitrary: l)
  case Nil
  then show ?case by simp
next
  case (Cons r rows)
  have "all_keys_normalized (insert_domain_row l r)"
    using Cons.prems
    by (auto simp: all_keys_normalized_def insert_domain_row_def key_normalized_strip_lower)
  from Cons.IH [OF this] show ?case by (simp add: insert_domain_row_def)
qed

lemma init_inv:
  assumes "VocabLookup_init u parent domain s = Inr l0"
  shows "all_keys_normalized l0 \<and> p_unknown l0 = u \<and> p_correction l0 = None \<and> parent = None"
proof -
  let ?self = "new_instance u parent domain"
  have e: "all_keys_normalized ?self"
    by (simp add: all_keys_normalized_def new_instance_def)
  have f: "p_unknown ?self = u" "p_correction ?self = None"
    by (simp_all add: new_instance_def)
  have p: "parent = None"
    using assms by (cases parent) (simp_all add: VocabLookup_init_def)
  show ?thesis
  proof (cases domain)
    case None
    then have "l0 = ?self" using assms p by (simp add: VocabLookup_init_def)
    then show ?thesis using e f p by simp
  next
    case (Some d)
    then have "l0 = get_domain_lookup ?self s"
      using assms p by (simp add: VocabLookup_init_def)
    then show ?thesis
      using insert_domain_rows_inv [OF e] f p by (simp add: get_domain_lookup_def)
  qed
qed

lemma gender_lookup_map:
  "p_lookup gender_lookup = [''male'' \<mapsto> 1, ''female'' \<mapsto> 2]"
proof -
  have "strip (lower ''Male'') = ''male''" "strip (lower ''Female'') = ''female''"
    by code_simp+
  then show ?thesis
    by (simp add: gender_lookup_def gender_session_def get_domain_lookup_def new_instance_def
          insert_domain_row_def)
qed

lemma gender_lookup_fields:
  "p_unknown gender_lookup = EnumMember ''gender'' 4214687"
  "p_correction gender_lookup = None"
  by (simp_all add: gender_lookup_def gender_session_def get_domain_lookup_def new_instance_def
          insert_domain_row_def)

lemma gender_init:
  "VocabLookup_init (EnumMember ''gender'' 4214687) None (Some ''Gender'') gender_session
     = Inr gender_lookup"
  by (simp add: VocabLookup_init_def gender_lookup_def)

lemma default_gender_lookup_map:
  "p_lookup default_gender_lookup = [''male'' \<mapsto> 1, ''female'' \<mapsto> 2]"
proof -
  have "strip (lower ''Male'') = ''male''" "strip (lower ''Female'') = ''female''"
    by code_simp+
  then show ?thesis
    by (simp add: default_gender_lookup_def gender_session_def get_domain_lookup_def
          new_instance_def insert_domain_row_def)
qed

lemma default_gender_init:
  "VocabLookup_init (PlainInt 0) None (Some ''Gender'') gender_session
     = Inr default_gender_lookup"
  by (simp add: VocabLookup_init_def default_gender_lookup_def)

section \<open>Instances after calls\<close>

lemma getitem_twice: "fst (getitem (snd (getitem l k)) k) = fst (getitem l k)"
  by (cases "p_unknown l")
     (auto simp: getitem_def return_unknown_def split: option.splits)

lemma run_calls_inv:
  assumes "VocabLookup_init u parent domain s = Inr l0"
      and "l = run_calls (l0\<lparr>p_correction := cs\<rparr>) calls"
  shows "all_keys_normalized l" and "p_unknown l = u"
    and "\<And>k v. p_lookup l k = Some v \<Longrightarrow> p_lookup l0 k = Some v \<or> v = unknown_value u"
proof -
  let ?l1 = "l0\<lparr>p_correction := cs\<rparr>"
  have i: "all_keys_normalized l0" "p_unknown l0 = u"
    using init_inv [OF assms(1)] by simp_all
  have g: "grows ?l1 l" using assms(2) run_calls_grows by simp
  then show u: "p_unknown l = u" using i(2) grows_unknown [OF g] by simp
  have l1: "p_lookup ?l1 = p_lookup l0" "p_unknown ?l1 = u" using i(2) by simp_all
  show "all_keys_normalized l"
    unfolding all_keys_normalized_def
  proof
    fix k assume "k \<in> dom (p_lookup l)"
    then obtain v where s: "p_lookup l k = Some v" by auto
    show "key_normalized k"
    proof (cases "p_lookup l0 k")
      case None
      then show ?thesis using grows_new [OF g _ s] l1 by simp
    next
      case (Some v)
      then show ?thesis using i(1) by (auto simp: all_keys_normalized_def)
    qed
  qed
  show "p_lookup l0 k = Some v \<or> v = unknown_value u" if h: "p_lookup l k = Some v" for k v
  proof (cases "p_lookup l0 k")
    case None
    then show ?thesis using grows_new [OF g _ h] l1 by simp
  next
    case (Some w)
    then have "p_lookup l k = Some w" using grows_old [OF g, of k w] l1 by simp
    then show ?thesis using h Some by simp
  qed
qed

lemma norm_examples:
  "strip (lower ''Breast'') = ''breast''"
  "strip (lower ''breast'') = ''breast''"
  "strip (lower '' breast '') = ''breast''"
  "strip (lower ''MALE '') = ''male''"
  "strip (lower ''Male'') = ''male''"
  "strip (lower ''male'') = ''male''"
  "strip (lower ''unknown'') = ''unknown''"
  "strip (lower ''m'') = ''m''"
  "strip (lower ''x'') = ''x''"
  "strip (lower []) = []"
  "strip (lower ''  '') = []"
  by code_simp+

lemma getitem_fst:
  "fst (getitem l k) = (case p_lookup l k of Some v \<Rightarrow> Inr v | None \<Rightarrow> return_unknown l)"
  by (auto simp: getitem_def split: option.splits sum.splits)

text \<open>
  C2, as the code behaves. On an instance that the constructor has returned, after any
  calls of \<open>lookup_exact\<close> and \<open>lookup\<close>: for a term whose normalized key the constructor
  stored, \<open>lookup_exact\<close> returns the concept id stored with it; for any other term it
  returns the value of the unknown member when the constructor was given a member of an
  enumeration, and it raises \<open>AttributeError\<close> when the constructor was given an integer,
  which is the default.
\<close>

theorem lookup_exact_result:
  assumes "VocabLookup_init u parent domain s = Inr l0"
      and "l = run_calls (l0\<lparr>p_correction := cs\<rparr>) calls"
  shows "fst (lookup_exact l t) =
           (case p_lookup l0 (strip (lower (term_or_empty t))) of
              Some v \<Rightarrow> Inr v
            | None \<Rightarrow> (case u of EnumMember nm w \<Rightarrow> Inr w
                               | PlainInt n \<Rightarrow> Inl AttributeError))"
proof -
  let ?key = "strip (lower (term_or_empty t))"
  let ?l1 = "l0\<lparr>p_correction := cs\<rparr>"
  have g: "grows ?l1 l"
    using assms(2) run_calls_grows by simp
  have u: "p_unknown l0 = u"
    using init_inv [OF assms(1)] by simp
  have "fst (getitem l ?key) = fst (getitem ?l1 ?key)"
    using g by (rule grows_same_results)
  also have "\<dots> = (case p_lookup l0 ?key of Some v \<Rightarrow> Inr v | None \<Rightarrow> return_unknown l0)"
  proof -
    have "return_unknown ?l1 = return_unknown l0"
      by (simp add: return_unknown_def)
    then show ?thesis by (simp add: getitem_fst split: option.splits)
  qed
  also have "return_unknown l0 =
      (case u of EnumMember nm w \<Rightarrow> Inr w | PlainInt n \<Rightarrow> Inl AttributeError)"
    using u by (simp add: return_unknown_def split: unknown_arg.splits)
  finally show ?thesis
    by (simp add: lookup_exact_def)
qed

theorem lookup_exact_result_witness:
  "VocabLookup_init (PlainInt 0) None (Some ''Gender'') gender_session
     = Inr default_gender_lookup
   \<and> fst (lookup_exact (run_calls (default_gender_lookup\<lparr>p_correction := None\<rparr>)
            [CallLookupExact (Some ''unknown'')]) (Some ''MALE '')) = Inr 1
   \<and> fst (lookup_exact (run_calls (default_gender_lookup\<lparr>p_correction := None\<rparr>)
            [CallLookupExact (Some ''unknown'')]) (Some ''unknown'')) = Inl AttributeError
   \<and> VocabLookup_init (EnumMember ''gender'' 4214687) None (Some ''Gender'') gender_session
       = Inr gender_lookup
   \<and> fst (lookup_exact (run_calls (gender_lookup\<lparr>p_correction := None\<rparr>)
            [CallLookupExact (Some ''unknown'')]) (Some ''MALE '')) = Inr 1
   \<and> fst (lookup_exact (run_calls (gender_lookup\<lparr>p_correction := None\<rparr>)
            [CallLookupExact (Some ''unknown'')]) (Some ''unknown'')) = Inr 4214687"
  using default_gender_init gender_init
    lookup_exact_result [OF default_gender_init refl, of None
      "[CallLookupExact (Some ''unknown'')]" "Some ''MALE ''"]
    lookup_exact_result [OF default_gender_init refl, of None
      "[CallLookupExact (Some ''unknown'')]" "Some ''unknown''"]
    lookup_exact_result [OF gender_init refl, of None
      "[CallLookupExact (Some ''unknown'')]" "Some ''MALE ''"]
    lookup_exact_result [OF gender_init refl, of None
      "[CallLookupExact (Some ''unknown'')]" "Some ''unknown''"]
  by (simp add: term_or_empty_def norm_examples default_gender_lookup_map gender_lookup_map)


section \<open>The correction chain\<close>

lemma getitem_unknown: "p_unknown (snd (getitem l k)) = p_unknown l"
  using grows_unknown [OF getitem_grows [OF key_normalized_strip_lower]]
  by (cases "p_unknown l") (auto simp: getitem_def return_unknown_def split: option.splits)

lemma correction_loop_hit:
  "py_ne v (p_unknown l) \<Longrightarrow> correction_loop l t cs v k = (Inr v, l, k)"
  by (cases cs) simp_all

lemma py_ne_value: "v \<noteq> unknown_value u \<Longrightarrow> py_ne v u"
  by (cases u) simp_all

text \<open>
  C8. When \<open>lookup_exact\<close> returns a value other than the unknown value, \<open>lookup\<close>
  returns the same value and leaves the same instance, and it has called no correction
  function.
\<close>

theorem lookup_hit_skips_corrections:
  assumes "fst (lookup_exact l t) = Inr v" and "v \<noteq> unknown_value (p_unknown l)"
  shows "lookup l t = (Inr v, snd (lookup_exact l t), 0)"
proof -
  let ?key = "strip (lower (term_or_empty t))"
  obtain l' where g: "getitem l ?key = (Inr v, l')"
    using assms(1) by (cases "getitem l ?key") (simp add: lookup_exact_def)
  have "p_unknown l' = p_unknown l" using getitem_unknown [of l ?key] g by simp
  then have n: "py_ne v (p_unknown l')" using assms(2) py_ne_value by simp
  show ?thesis
    using g correction_loop_hit [OF n]
    by (simp add: lookup_def lookup_exact_def split: option.splits)
qed

theorem lookup_hit_skips_corrections_witness:
  "fst (lookup_exact (gender_lookup\<lparr>p_correction := Some [\<lambda>t. ''female'']\<rparr>) (Some ''Male'')) = Inr 1
   \<and> 1 \<noteq> unknown_value (p_unknown (gender_lookup\<lparr>p_correction := Some [\<lambda>t. ''female'']\<rparr>))
   \<and> lookup (gender_lookup\<lparr>p_correction := Some [\<lambda>t. ''female'']\<rparr>) (Some ''Male'')
       = (Inr 1, gender_lookup\<lparr>p_correction := Some [\<lambda>t. ''female'']\<rparr>, 0)"
proof -
  let ?l = "gender_lookup\<lparr>p_correction := Some [\<lambda>t. ''female'']\<rparr>"
  have e: "lookup_exact ?l (Some ''Male'') = (Inr 1, ?l)"
    by (simp add: lookup_exact_def term_or_empty_def norm_examples getitem_def
          gender_lookup_map)
  have h1: "fst (lookup_exact ?l (Some ''Male'')) = Inr 1" using e by simp
  have h2: "1 \<noteq> unknown_value (p_unknown ?l)" by (simp add: gender_lookup_fields)
  show ?thesis
    using h1 h2 lookup_hit_skips_corrections [OF h1 h2] e by simp
qed

text \<open>
  C1, as the code behaves. The lookup of the domain \<open>Gender\<close> with the unknown value
  \<open>Unknown.gender\<close> and the corrections \<open>[c1, c2]\<close>, where \<open>c1\<close> maps every term to
  \<open>male\<close>: \<open>lookup_exact\<close> of \<open>m\<close> is the unknown value and \<open>lookup_exact\<close> of
  \<open>c1(m)\<close> is the concept 1, yet \<open>lookup\<close> of \<open>m\<close> returns the unknown value and calls
  no correction at all: the loop compares the integer with the member \<open>self._unknown\<close>,
  which differ always, and leaves at once.
\<close>

theorem correction_chain_not_applied:
  "VocabLookup_init (EnumMember ''gender'' 4214687) None (Some ''Gender'') gender_session
     = Inr gender_lookup
   \<and> fst (lookup_exact (gender_lookup\<lparr>p_correction := Some [\<lambda>t. ''male'', \<lambda>t. t]\<rparr>) (Some ''m''))
       = Inr 4214687
   \<and> fst (lookup_exact (gender_lookup\<lparr>p_correction := Some [\<lambda>t. ''male'', \<lambda>t. t]\<rparr>)
            (Some ((\<lambda>t. ''male'') ''m'')))
       = Inr 1
   \<and> fst (lookup (gender_lookup\<lparr>p_correction := Some [\<lambda>t. ''male'', \<lambda>t. t]\<rparr>) (Some ''m''))
       = Inr 4214687
   \<and> snd (snd (lookup (gender_lookup\<lparr>p_correction := Some [\<lambda>t. ''male'', \<lambda>t. t]\<rparr>) (Some ''m'')))
       = 0"
  by (simp add: gender_init lookup_def lookup_exact_def term_or_empty_def norm_examples
        getitem_def gender_lookup_map gender_lookup_fields return_unknown_def)

text \<open>
  In general, with a member of an enumeration as unknown value, \<open>lookup\<close> is
  \<open>lookup_exact\<close>, whatever the corrections are.
\<close>

lemma lookup_enum_is_exact:
  assumes "p_unknown l = EnumMember nm u"
  shows "\<exists>v. lookup l t = (Inr v, snd (lookup_exact l t), 0) \<and> fst (lookup_exact l t) = Inr v"
proof -
  let ?key = "strip (lower (term_or_empty t))"
  obtain v where v: "fst (getitem l ?key) = Inr v"
    using getitem_total [OF assms] by blast
  then obtain l' where g: "getitem l ?key = (Inr v, l')"
    by (cases "getitem l ?key") simp
  have "p_unknown l' = p_unknown l" using getitem_unknown [of l ?key] g by simp
  then have n: "py_ne v (p_unknown l')" using assms by simp
  show ?thesis
    using g correction_loop_hit [OF n]
    by (simp add: lookup_def lookup_exact_def split: option.splits)
qed

text \<open>
  C4, as the code behaves. An instance built with the default \<open>unknown=0\<close>:
  \<open>lookup_exact\<close> of \<open>None\<close>, of the empty string and of a blank string raise
  \<open>AttributeError\<close>, since \<open>return_unknown\<close> reads \<open>self._unknown.value\<close> of an integer.
\<close>

theorem lookup_exact_default_unknown_raises:
  "VocabLookup_init (PlainInt 0) None None \<lparr>concept_table = [], relationship_table = []\<rparr>
     = Inr (new_instance (PlainInt 0) None None)
   \<and> fst (lookup_exact (new_instance (PlainInt 0) None None) None) = Inl AttributeError
   \<and> fst (lookup_exact (new_instance (PlainInt 0) None None) (Some [])) = Inl AttributeError
   \<and> fst (lookup_exact (new_instance (PlainInt 0) None None) (Some ''  '')) = Inl AttributeError"
  by (simp add: VocabLookup_init_def lookup_exact_def term_or_empty_def norm_examples
        getitem_def return_unknown_def new_instance_def)

text \<open>
  With a member of an enumeration as unknown value, the three calls return the same
  value.
\<close>

lemma lookup_exact_enum_blank:
  assumes "p_unknown l = EnumMember nm u"
  shows "\<exists>v. fst (lookup_exact l None) = Inr v \<and> fst (lookup_exact l (Some [])) = Inr v
           \<and> fst (lookup_exact l (Some ''  '')) = Inr v"
  using getitem_total [OF assms, of "[]"]
  by (simp add: lookup_exact_def term_or_empty_def norm_examples)


section \<open>The mapping after construction\<close>

text \<open>
  C6, as the code behaves. On a new instance with the unknown value \<open>Unknown.generic\<close>
  the mapping has no key \<open>x\<close>; after \<open>lookup_exact\<close> of \<open>x\<close>, and after \<open>lookup\<close> of
  \<open>x\<close>, it has: the \<open>defaultdict\<close> stores the default of a missing key.
\<close>

theorem lookup_exact_adds_missing_key:
  "VocabLookup_init (EnumMember ''generic'' 4129922) None None gender_session
     = Inr (new_instance (EnumMember ''generic'' 4129922) None None)
   \<and> p_lookup (new_instance (EnumMember ''generic'' 4129922) None None) ''x'' = None
   \<and> p_lookup (snd (lookup_exact (new_instance (EnumMember ''generic'' 4129922) None None)
         (Some ''x''))) ''x'' = Some 4129922
   \<and> p_lookup (fst (snd (lookup (new_instance (EnumMember ''generic'' 4129922) None None)
         (Some ''x'')))) ''x'' = Some 4129922
   \<and> p_lookup (snd (lookup_exact (new_instance (EnumMember ''generic'' 4129922) None None)
         (Some ''x'')))
       \<noteq> p_lookup (new_instance (EnumMember ''generic'' 4129922) None None)"
proof -
  let ?l = "new_instance (EnumMember ''generic'' 4129922) None None"
  have a: "p_lookup ?l ''x'' = None" by (simp add: new_instance_def)
  have b: "p_lookup (snd (lookup_exact ?l (Some ''x''))) ''x'' = Some 4129922"
    by (simp add: lookup_exact_def term_or_empty_def norm_examples getitem_def
          return_unknown_def new_instance_def)
  have c: "p_lookup (fst (snd (lookup ?l (Some ''x'')))) ''x'' = Some 4129922"
    by (simp add: lookup_def term_or_empty_def norm_examples getitem_def
          return_unknown_def new_instance_def)
  have d: "p_lookup (snd (lookup_exact ?l (Some ''x''))) \<noteq> p_lookup ?l"
    using a b by (metis option.distinct(1))
  show ?thesis using a b c d by (simp add: VocabLookup_init_def)
qed

lemma grows_fields:
  assumes "grows l l'"
  shows "p_unknown l' = p_unknown l \<and> p_domain l' = p_domain l
         \<and> p_parent l' = p_parent l \<and> p_correction l' = p_correction l"
proof -
  have "l' = l\<lparr>p_lookup := p_lookup l'\<rparr>" using assms by (rule grows_frame)
  then have "p_unknown l' = p_unknown (l\<lparr>p_lookup := p_lookup l'\<rparr>)"
    "p_domain l' = p_domain (l\<lparr>p_lookup := p_lookup l'\<rparr>)"
    "p_parent l' = p_parent (l\<lparr>p_lookup := p_lookup l'\<rparr>)"
    "p_correction l' = p_correction (l\<lparr>p_lookup := p_lookup l'\<rparr>)"
    by (rule arg_cong)+
  then show ?thesis by simp
qed

lemma getitem_dom: "dom (p_lookup (snd (getitem l k))) \<subseteq> insert k (dom (p_lookup l))"
  by (auto simp: getitem_def split: option.splits sum.splits)

lemma getitem_stores:
  "return_unknown l = Inr u \<Longrightarrow> p_lookup l k = None \<Longrightarrow>
     p_lookup (snd (getitem l k)) k = Some u"
  by (simp add: getitem_def)

lemma correction_loop_dom:
  "dom (p_lookup (fst (snd (correction_loop l t cs v k))))
     \<subseteq> dom (p_lookup l) \<union> (\<lambda>c. strip (lower (c t))) ` set cs"
proof (induction cs arbitrary: l v k)
  case Nil
  show ?case by simp
next
  case (Cons c cs)
  show ?case
  proof (cases "py_ne v (p_unknown l)")
    case True
    then show ?thesis by auto
  next
    case False
    obtain r l' where g: "getitem l (strip (lower (c t))) = (r, l')"
      by (cases "getitem l (strip (lower (c t)))")
    have d: "dom (p_lookup l') \<subseteq> insert (strip (lower (c t))) (dom (p_lookup l))"
      using getitem_dom [of l "strip (lower (c t))"] g by simp
    show ?thesis
    proof (cases r)
      case (Inl e)
      then show ?thesis using False g d by auto
    next
      case (Inr v')
      have "dom (p_lookup (fst (snd (correction_loop l' t cs v' (Suc k)))))
              \<subseteq> dom (p_lookup l') \<union> (\<lambda>c. strip (lower (c t))) ` set cs"
        by (rule Cons.IH)
      then show ?thesis using Inr False g d by auto
    qed
  qed
qed

lemma lookup_exact_dom:
  "dom (p_lookup (snd (lookup_exact l t)))
     \<subseteq> insert (strip (lower (term_or_empty t))) (dom (p_lookup l))"
  by (simp add: lookup_exact_def getitem_dom)

lemma lookup_dom:
  "dom (p_lookup (fst (snd (lookup l t))))
     \<subseteq> insert (strip (lower (term_or_empty t))) (dom (p_lookup l))
        \<union> (case p_correction l of
             None \<Rightarrow> {}
           | Some cs \<Rightarrow> (\<lambda>c. strip (lower (c (term_or_empty t)))) ` set cs)"
proof -
  let ?t = "term_or_empty t"
  let ?key = "strip (lower ?t)"
  obtain r l' where g: "getitem l ?key = (r, l')"
    by (cases "getitem l ?key")
  have d: "dom (p_lookup l') \<subseteq> insert ?key (dom (p_lookup l))"
    using getitem_dom [of l ?key] g by simp
  have c: "p_correction l' = p_correction l"
    using grows_correction [OF getitem_grows [OF key_normalized_strip_lower, of l ?t]] g
    by simp
  show ?thesis
  proof (cases r)
    case (Inl e)
    then show ?thesis using g d by (auto simp: lookup_def)
  next
    case (Inr v)
    show ?thesis
    proof (cases "p_correction l")
      case None
      then show ?thesis using Inr g d c by (auto simp: lookup_def)
    next
      case (Some cs)
      have "dom (p_lookup (fst (snd (correction_loop l' ?t cs v 0))))
              \<subseteq> dom (p_lookup l') \<union> (\<lambda>c. strip (lower (c ?t))) ` set cs"
        by (rule correction_loop_dom)
      then show ?thesis using Some Inr g d c by (auto simp: lookup_def)
    qed
  qed
qed

lemma lookup_exact_stores:
  assumes "return_unknown l = Inr u" and "p_lookup l (strip (lower (term_or_empty t))) = None"
  shows "p_lookup (snd (lookup_exact l t)) (strip (lower (term_or_empty t))) = Some u"
  using getitem_stores [OF assms] by (simp add: lookup_exact_def)

lemma lookup_stores:
  assumes "return_unknown l = Inr u" and "p_lookup l (strip (lower (term_or_empty t))) = None"
  shows "p_lookup (fst (snd (lookup l t))) (strip (lower (term_or_empty t))) = Some u"
proof -
  let ?t = "term_or_empty t"
  let ?key = "strip (lower ?t)"
  obtain l' where g: "getitem l ?key = (Inr u, l')"
    using assms by (simp add: getitem_def)
  have s: "p_lookup l' ?key = Some u"
    using getitem_stores [OF assms] g by simp
  show ?thesis
  proof (cases "p_correction l'")
    case None
    then show ?thesis using g s by (simp add: lookup_def)
  next
    case (Some cs)
    have "grows l' (fst (snd (correction_loop l' ?t cs u 0)))"
      by (rule correction_loop_grows)
    then have "p_lookup (fst (snd (correction_loop l' ?t cs u 0))) ?key = Some u"
      using s by (rule grows_old)
    then show ?thesis using Some g by (simp add: lookup_def)
  qed
qed

text \<open>
  C6, amended. \<open>lookup_exact\<close> and \<open>lookup\<close> leave the other fields of the instance as
  they are and keep every entry of the mapping. A key they add is normalized, maps to
  the unknown value, and is the normalized term or, for \<open>lookup\<close>, the normalized result
  of one of the corrections on the term. With a member of an enumeration as unknown
  value, a call for a term whose key is missing does add that key. Every later
  \<open>lookup_exact\<close> gives the result it would have given before, and \<open>lookup_exact\<close> of a
  term whose key is present changes nothing.
\<close>

theorem lookups_keep_entries:
  assumes "l' = snd (lookup_exact l t) \<or> l' = fst (snd (lookup l t))"
  shows "(p_unknown l' = p_unknown l \<and> p_domain l' = p_domain l
          \<and> p_parent l' = p_parent l \<and> p_correction l' = p_correction l)
       \<and> (\<forall>k v. p_lookup l k = Some v \<longrightarrow> p_lookup l' k = Some v)
       \<and> (\<forall>k v. p_lookup l k = None \<longrightarrow> p_lookup l' k = Some v \<longrightarrow>
             v = unknown_value (p_unknown l) \<and> key_normalized k
             \<and> (k = strip (lower (term_or_empty t))
                \<or> (\<exists>cs c. l' = fst (snd (lookup l t)) \<and> p_correction l = Some cs \<and> c \<in> set cs
                      \<and> k = strip (lower (c (term_or_empty t))))))
       \<and> (\<forall>nm u. p_unknown l = EnumMember nm u \<longrightarrow>
             p_lookup l (strip (lower (term_or_empty t))) = None \<longrightarrow>
             p_lookup l' (strip (lower (term_or_empty t))) = Some u)
       \<and> (\<forall>t'. fst (lookup_exact l' t') = fst (lookup_exact l t'))
       \<and> (p_lookup l (strip (lower (term_or_empty t))) \<noteq> None \<longrightarrow>
             snd (lookup_exact l t) = l)"
proof -
  let ?key = "strip (lower (term_or_empty t))"
  have g: "grows l l'"
    using assms lookup_exact_grows lookup_grows by blast
  have same: "\<forall>t'. fst (lookup_exact l' t') = fst (lookup_exact l t')"
    using grows_same_results [OF g] by (simp add: lookup_exact_def)
  have hit: "p_lookup l ?key \<noteq> None \<longrightarrow> snd (lookup_exact l t) = l"
    by (auto simp: lookup_exact_def getitem_def)
  have new: "v = unknown_value (p_unknown l) \<and> key_normalized k
             \<and> (k = ?key
                \<or> (\<exists>cs c. l' = fst (snd (lookup l t)) \<and> p_correction l = Some cs \<and> c \<in> set cs
                      \<and> k = strip (lower (c (term_or_empty t)))))"
    if n: "p_lookup l k = None" and s: "p_lookup l' k = Some v" for k v
  proof -
    have a: "key_normalized k \<and> v = unknown_value (p_unknown l)"
      using g n s by (rule grows_new)
    have kd: "k \<in> dom (p_lookup l')" "k \<notin> dom (p_lookup l)"
      using n s by auto
    from assms have "k = ?key
                \<or> (\<exists>cs c. l' = fst (snd (lookup l t)) \<and> p_correction l = Some cs \<and> c \<in> set cs
                      \<and> k = strip (lower (c (term_or_empty t))))"
    proof
      assume "l' = snd (lookup_exact l t)"
      then show ?thesis using kd lookup_exact_dom [of l t] by auto
    next
      assume e: "l' = fst (snd (lookup l t))"
      show ?thesis
      proof (cases "p_correction l")
        case None
        then show ?thesis using kd e lookup_dom [of l t] by auto
      next
        case (Some cs)
        then show ?thesis using kd e lookup_dom [of l t] by auto
      qed
    qed
    then show ?thesis using a by blast
  qed
  have st: "p_lookup l' ?key = Some u"
    if "p_unknown l = EnumMember nm u" and "p_lookup l ?key = None" for nm u
  proof -
    have r: "return_unknown l = Inr u"
      using that(1) by (simp add: return_unknown_def)
    show ?thesis
      using assms lookup_exact_stores [OF r that(2)] lookup_stores [OF r that(2)] by blast
  qed
  show ?thesis
    using grows_fields [OF g] grows_old [OF g] new st same hit by blast
qed

theorem lookups_keep_entries_witness:
  "p_lookup gender_lookup ''male'' = Some 1
   \<and> p_lookup (snd (lookup_exact gender_lookup (Some ''x''))) ''male'' = Some 1
   \<and> p_lookup gender_lookup ''x'' = None
   \<and> p_lookup (snd (lookup_exact gender_lookup (Some ''x''))) ''x'' = Some 4214687
   \<and> 4214687 = unknown_value (p_unknown gender_lookup)
   \<and> key_normalized ''x''
   \<and> ''x'' = strip (lower (term_or_empty (Some ''x'')))
   \<and> fst (lookup_exact (snd (lookup_exact gender_lookup (Some ''x''))) (Some ''MALE ''))
       = fst (lookup_exact gender_lookup (Some ''MALE ''))"
proof -
  let ?l' = "snd (lookup_exact gender_lookup (Some ''x''))"
  have a: "p_lookup gender_lookup ''male'' = Some 1" "p_lookup gender_lookup ''x'' = None"
    by (simp_all add: gender_lookup_map)
  have n: "strip (lower (term_or_empty (Some ''x''))) = ''x''"
    by (simp add: term_or_empty_def norm_examples)
  have d: "?l' = snd (lookup_exact gender_lookup (Some ''x''))
           \<or> ?l' = fst (snd (lookup gender_lookup (Some ''x'')))"
    by (rule disjI1) (rule refl)
  note k = lookups_keep_entries [OF d]
  have k2: "\<forall>k v. p_lookup gender_lookup k = Some v \<longrightarrow> p_lookup ?l' k = Some v"
    using k by (elim conjE)
  have k3: "\<forall>k v. p_lookup gender_lookup k = None \<longrightarrow> p_lookup ?l' k = Some v \<longrightarrow>
             v = unknown_value (p_unknown gender_lookup) \<and> key_normalized k"
    using k by (elim conjE) blast
  have k4: "\<forall>nm u. p_unknown gender_lookup = EnumMember nm u \<longrightarrow>
             p_lookup gender_lookup (strip (lower (term_or_empty (Some ''x'')))) = None \<longrightarrow>
             p_lookup ?l' (strip (lower (term_or_empty (Some ''x'')))) = Some u"
    using k by (elim conjE)
  have k5: "\<forall>t'. fst (lookup_exact ?l' t') = fst (lookup_exact gender_lookup t')"
    using k by (elim conjE)
  have b: "p_lookup ?l' ''x'' = Some 4214687"
    using k4 gender_lookup_fields(1) a(2) n by simp
  have "p_lookup ?l' ''male'' = Some 1" using k2 a(1) by blast
  moreover have "4214687 = unknown_value (p_unknown gender_lookup) \<and> key_normalized ''x''"
    using k3 a(2) b by blast
  moreover have "fst (lookup_exact ?l' (Some ''MALE '')) = fst (lookup_exact gender_lookup (Some ''MALE ''))"
    using k5 by blast
  ultimately show ?thesis using a b n by simp
qed


section \<open>The hierarchy\<close>

lemma get_children_scalar:
  "get_children (IntObj n) s = Inl ArgumentError"
  "get_children (MemberObj nm v) s = Inl ArgumentError"
  "get_children NoneObj s = Inl ArgumentError"
  by (simp_all add: get_children_def)

lemma get_children_parent: "get_children (parent_obj parent) s = Inl ArgumentError"
  by (cases parent) (auto simp: parent_obj_def get_children_scalar)

lemma hier_children:
  "get_children (TupleObj [10]) hier_session = Inr (Query [(10, 11)])"
  "get_children (TupleObj [11]) hier_session = Inr (Query [(11, 12)])"
  "get_children (TupleObj [12]) hier_session = Inr (Query [])"
  by (simp_all add: get_children_def hier_session_def)

lemma each_child_first:
  "each_child n (child # rest) concepts s = Some (Inl ArgumentError)"
  by (simp add: get_children_scalar)

text \<open>
  C3, as the code behaves. Over the edges \<open>P \<rightarrow> A\<close>, \<open>A \<rightarrow> B\<close> (\<open>P = 10\<close>, \<open>A = 11\<close>,
  \<open>B = 12\<close>) the constructor called with the parent \<open>P\<close> raises \<open>TypeError\<close>, so there
  is no lookup. \<open>get_lookup\<close> called as it is declared raises \<open>ArgumentError\<close>, because
  \<open>get_children\<close> is given the member and not a sequence. Given the sequence \<open>(P,)\<close> it
  returns the query of the row \<open>(P, A)\<close>; the traversal of that query raises \<open>TypeError\<close>
  at \<open>len(children)\<close>, and the traversal of the list of its rows raises \<open>ArgumentError\<close>
  at the first child.
\<close>

theorem hierarchy_not_expanded:
  "VocabLookup_init (EnumMember ''generic'' 4129922) (Some (''parent'', 10)) None hier_session
     = Inl TypeError
   \<and> get_lookup (Suc 0)
        (new_instance (EnumMember ''generic'' 4129922) (Some (''parent'', 10)) None) hier_session
     = Some (Inl ArgumentError)
   \<and> get_children (MemberObj ''parent'' 10) hier_session = Inl ArgumentError
   \<and> get_children (TupleObj [10]) hier_session = Inr (Query [(10, 11)])
   \<and> get_all_concepts_in_hierarchy (Suc 0) (QueryObj (Query [(10, 11)])) [] hier_session
     = Some (Inl TypeError)
   \<and> get_all_concepts_in_hierarchy (Suc 0) (RowList [(10, 11)]) [] hier_session
     = Some (Inl ArgumentError)"
proof -
  let ?l = "new_instance (EnumMember ''generic'' 4129922) (Some (''parent'', 10)) None"
  have "VocabLookup_init (EnumMember ''generic'' 4129922) (Some (''parent'', 10)) None
          hier_session = Inl TypeError"
    by (simp add: VocabLookup_init_def)
  moreover have "get_lookup (Suc 0) ?l hier_session = Some (Inl ArgumentError)"
    by (simp add: get_lookup_def get_children_parent)
  moreover have "get_all_concepts_in_hierarchy (Suc 0) (RowList [(10, 11)]) [] hier_session
     = Some (Inl ArgumentError)"
    by (simp add: get_children_scalar)
  ultimately show ?thesis
    by (simp add: get_children_scalar hier_children)
qed

text \<open>
  C7, as the code behaves. Whatever the relationship table is, with or without a cycle,
  a call of \<open>get_all_concepts_in_hierarchy\<close> comes back without calling itself: on a
  query it raises \<open>TypeError\<close>, on a list with a first child it raises \<open>ArgumentError\<close>,
  and on the empty list it returns \<open>concepts\<close>; \<open>get_lookup\<close> raises \<open>ArgumentError\<close>.
  In the example the traversal from the row \<open>(P, A)\<close> stops at \<open>A\<close> with the exception,
  although \<open>A\<close> has the child \<open>B\<close>.
\<close>

theorem traversal_stops_at_once:
  "get_all_concepts_in_hierarchy (Suc n) (QueryObj q) concepts s = Some (Inl TypeError)
   \<and> get_all_concepts_in_hierarchy (Suc n) (RowList (child # rest)) concepts s
       = Some (Inl ArgumentError)
   \<and> get_all_concepts_in_hierarchy (Suc n) (RowList []) concepts s = Some (Inr (Some concepts))
   \<and> get_lookup fuel l s = Some (Inl ArgumentError)
   \<and> get_children (TupleObj [11]) hier_session = Inr (Query [(11, 12)])
   \<and> get_all_concepts_in_hierarchy (Suc (Suc 0)) (RowList [(10, 11)]) [] hier_session
       = Some (Inl ArgumentError)"
proof -
  have "get_all_concepts_in_hierarchy (Suc n) (RowList (child # rest)) concepts s
          = Some (Inl ArgumentError)"
    using each_child_first [of n child rest concepts s] by simp
  moreover have "get_all_concepts_in_hierarchy (Suc (Suc 0)) (RowList [(10, 11)]) []
          hier_session = Some (Inl ArgumentError)"
    using each_child_first [of "Suc 0" "(10, 11)" "[]" "[]" hier_session] by simp
  moreover have "get_lookup fuel l s = Some (Inl ArgumentError)"
    by (simp add: get_lookup_def get_children_parent)
  ultimately show ?thesis
    by (simp add: hier_children)
qed

text \<open>
  For the instances that the constructor does return (filled from a domain, or empty),
  after any calls of \<open>lookup_exact\<close> and \<open>lookup\<close>, every key is normalized, and the three
  spellings give one result on any instance.
\<close>

lemma constructed_keys_normalized:
  assumes "VocabLookup_init u parent domain s = Inr l0"
      and "l = run_calls (l0\<lparr>p_correction := cs\<rparr>) calls"
      and "p_lookup l k = Some v"
  shows "key_normalized k"
  using run_calls_inv(1) [OF assms(1,2)] assms(3) by (auto simp: all_keys_normalized_def)

lemma spellings_agree:
  "fst (lookup_exact l (Some ''Breast'')) = fst (lookup_exact l (Some ''breast''))"
  "fst (lookup_exact l (Some '' breast '')) = fst (lookup_exact l (Some ''breast''))"
  "fst (lookup_exact (snd (lookup_exact l (Some ''Breast''))) (Some '' breast ''))
     = fst (lookup_exact l (Some ''Breast''))"
  using getitem_twice [of l "''breast''"]
  by (simp_all add: lookup_exact_def term_or_empty_def norm_examples)



end
